theory Spec2Isabelle
  imports Complex_Main
begin

section \<open>The SVG chess board component of ng2-chess\<close>

text \<open>
  A shallow embedding of \<^verbatim>\<open>svg-chess-board.component.ts\<close>. Objects of the
  program live in explicit stores and are named by references (natural numbers), so
  that identity (\<^verbatim>\<open>===\<close>) is equality of references and aliasing is visible.
  Reading a property of \<^verbatim>\<open>undefined\<close> raises a \<^verbatim>\<open>TypeError\<close>, which is
  returned as \<open>Inl TypeError\<close>.
\<close>

subsection \<open>Numbers\<close>

text \<open>
  What the document and the events report (sizes, coordinates, scale) are finite
  numbers, idealised as reals. A computed number is finite or one of
  \<^verbatim>\<open>Infinity\<close>, \<^verbatim>\<open>-Infinity\<close> and \<^verbatim>\<open>NaN\<close>, which are not told apart:
  dividing finite numbers by \<open>0\<close> gives one of them, and no subtraction, sum or
  product with one of them is finite again. Rounding is not modelled.
\<close>

datatype number = Finite real | NonFinite

definition n_div :: "real \<Rightarrow> real \<Rightarrow> number" where
  "n_div a b = (if b = 0 then NonFinite else Finite (a / b))"

definition n_sub :: "number \<Rightarrow> real \<Rightarrow> number" where
  "n_sub a b = (case a of Finite x \<Rightarrow> Finite (x - b) | NonFinite \<Rightarrow> NonFinite)"

definition n_mul :: "number \<Rightarrow> number \<Rightarrow> number" where
  "n_mul a b =
     (case a of
        Finite x \<Rightarrow> (case b of Finite y \<Rightarrow> Finite (x * y) | NonFinite \<Rightarrow> NonFinite)
      | NonFinite \<Rightarrow> NonFinite)"

definition n_add :: "number \<Rightarrow> number \<Rightarrow> number" where
  "n_add a b =
     (case a of
        Finite x \<Rightarrow> (case b of Finite y \<Rightarrow> Finite (x + y) | NonFinite \<Rightarrow> NonFinite)
      | NonFinite \<Rightarrow> NonFinite)"

subsection \<open>Logical model: pieces and blocks of the engine\<close>

type_synonym PieceRef = nat
type_synonym BlockRef = nat

datatype PieceColor = WHITE | BLACK

text \<open>
  The enum \<^verbatim>\<open>PieceType\<close> is imported by the component; the only member the
  component names is \<^verbatim>\<open>QUEEN\<close>, the others are the remaining kinds of chess men.
\<close>

datatype PieceType = PAWN | KNIGHT | BISHOP | ROOK | QUEEN | KING

record Block =
  index :: int

record Piece =
  color :: PieceColor
  block :: BlockRef

text \<open>
  What the component reads from \<^verbatim>\<open>ChessEngine\<close>: the side to move
  (\<^verbatim>\<open>turn()\<close>), the legal destinations of a piece (\<^verbatim>\<open>moves(piece)\<close>), the
  array \<^verbatim>\<open>pieces\<close>, and the logical objects themselves.
\<close>

record ChessEngine =
  turn :: PieceColor
  moves :: "PieceRef \<Rightarrow> BlockRef list"
  engine_pieces :: "PieceRef list"
  pieceObj :: "PieceRef \<Rightarrow> Piece"
  blockObj :: "BlockRef \<Rightarrow> Block"

subsection \<open>Visual handles: the piece and block components\<close>

type_synonym SVGChessPieceRef = nat
type_synonym SVGChessBlockRef = nat

text \<open>
  \<^verbatim>\<open>SVGChessPiece\<close>: its logical piece, the block component it is paired with,
  whether it is in the lifted (dragged) visual state, the render offset from its
  square that \<^verbatim>\<open>setCoordinates\<close> accumulates, and the duration of the last settle
  transition asked for with \<^verbatim>\<open>reset\<close>.
\<close>

record SVGChessPiece =
  piece :: PieceRef
  pc_block :: "SVGChessBlockRef option"
  isDragged :: bool
  offset :: "number \<times> number"
  settle :: "nat option"

text \<open>\<^verbatim>\<open>SVGChessBlock\<close>: its logical block and the piece component shown on it.\<close>

record SVGChessBlock =
  bc_block :: BlockRef
  bc_piece :: "SVGChessPieceRef option"

subsection \<open>Events, the DOM and promises\<close>

record Coords =
  pageX :: real
  pageY :: real
  clientX :: real
  clientY :: real

text \<open>
  A mouse event carries its own coordinates; a touch event has none of its own
  (\<^verbatim>\<open>clientX === undefined\<close>) and carries the lists \<^verbatim>\<open>touches\<close> and
  \<^verbatim>\<open>changedTouches\<close>.
\<close>

datatype UIEvent = MouseEvent Coords | TouchEvent "Coords list" "Coords list"

text \<open>
  What the component reads from the \<^verbatim>\<open>svg\<close> element at one moment: its client
  size and its parent's, its bounding rectangle, and its current scale and translation.
\<close>

record SVGElement =
  clientWidth :: real
  clientHeight :: real
  parentClientWidth :: real
  parentClientHeight :: real
  rectLeft :: real
  rectTop :: real
  currentScale :: real
  currentTranslateX :: real
  currentTranslateY :: real

datatype 'a Promise = Resolved 'a | Pending

datatype error = TypeError

type_synonym Subscription = nat

text \<open>The event sources and engine notifications the component listens to.\<close>

datatype Listener = BoardSynced | StateChanged | MouseDrag | TouchDrag | MouseUp | TouchEnd

record Move =
  invalid :: bool
  isCastlingMove :: bool

subsection \<open>The component's state\<close>

text \<open>
  The fields of the class (\<open>dragPiece\<close> \<dots> \<open>pieces\<close>, the two query lists being
  the snapshot \<^verbatim>\<open>toArray()\<close> gives), followed by what surrounds it: the stores of
  the piece and block components, the engine, the \<^verbatim>\<open>svg\<close> element, the listeners
  that are subscribed at the moment (\<open>live\<close>) with the next fresh subscription,
  the callbacks handed to \<^verbatim>\<open>setTimeout\<close> and not yet run (each is
  \<^verbatim>\<open>() => this.move(piece)\<close>), the change-detection mark, and the static
  \<^verbatim>\<open>BaseBlock.pointToIndex\<close>, which is declared outside this file and is a
  parameter here.
\<close>

record SVGChessBoard =
  dragPiece :: "SVGChessPieceRef option"
  rxWaste :: "Subscription list"
  isBusy :: bool
  isDisabled :: bool
  banner :: "(string \<times> string) option"
  highlighted :: "BlockRef list"
  blocks :: "SVGChessBlockRef list"
  pieces :: "SVGChessPieceRef list"
  pieceCmp :: "SVGChessPieceRef \<Rightarrow> SVGChessPiece"
  blockCmp :: "SVGChessBlockRef \<Rightarrow> SVGChessBlock"
  engine :: ChessEngine
  boardEl :: SVGElement
  live :: "Subscription \<rightharpoonup> Listener"
  nextSub :: Subscription
  timers :: "PieceRef list"
  markedForCheck :: bool
  pointToIndex :: "real \<Rightarrow> real \<Rightarrow> int"

definition height :: real where
  "height = 600"

definition width :: real where
  "width = 600"

text \<open>JavaScript array indexing: \<^verbatim>\<open>undefined\<close> outside the array.\<close>

definition at_index :: "'a list \<Rightarrow> int \<Rightarrow> 'a option" where
  "at_index xs i = (if 0 \<le> i \<and> i < int (length xs) then Some (xs ! nat i) else None)"

text \<open>\<^verbatim>\<open>xs.filter(f)[0]\<close>: the first element that satisfies \<open>f\<close>, if any.\<close>

definition first_where :: "('a \<Rightarrow> bool) \<Rightarrow> 'a list \<Rightarrow> 'a option" where
  "first_where f xs = (case filter f xs of [] \<Rightarrow> None | x # _ \<Rightarrow> Some x)"

subsection \<open>Subscriptions\<close>

definition markForCheck :: "SVGChessBoard \<Rightarrow> SVGChessBoard" where
  "markForCheck s = s\<lparr>markedForCheck := True\<rparr>"

text \<open>
  \<^verbatim>\<open>observable.subscribe(...)\<close> followed by \<^verbatim>\<open>this.rxWaste.push(...)\<close>:
  a fresh subscription becomes live and is recorded.
\<close>

definition subscribe_push :: "Listener \<Rightarrow> SVGChessBoard \<Rightarrow> SVGChessBoard" where
  "subscribe_push l s =
     s\<lparr>live := (live s)(nextSub s \<mapsto> l),
       nextSub := Suc (nextSub s),
       rxWaste := rxWaste s @ [nextSub s]\<rparr>"

definition unsubscribe :: "Subscription \<Rightarrow> SVGChessBoard \<Rightarrow> SVGChessBoard" where
  "unsubscribe u s = s\<lparr>live := (live s)(u := None)\<rparr>"

function clearSubscriptions :: "SVGChessBoard \<Rightarrow> SVGChessBoard" where
  "clearSubscriptions s =
     (if length (rxWaste s) > 0
      then clearSubscriptions (unsubscribe (last (rxWaste s)) (s\<lparr>rxWaste := butlast (rxWaste s)\<rparr>))
      else s)"
  by pat_completeness auto
termination
  by (relation "measure (\<lambda>s. length (rxWaste s))") (auto simp: unsubscribe_def)

declare clearSubscriptions.simps [simp del]

definition blockUi :: "bool \<Rightarrow> SVGChessBoard \<Rightarrow> SVGChessBoard" where
  "blockUi v s = markForCheck (s\<lparr>isDisabled := v\<rparr>)"

definition busy :: "bool \<Rightarrow> SVGChessBoard \<Rightarrow> SVGChessBoard" where
  "busy v s = markForCheck (s\<lparr>isBusy := v\<rparr>)"

definition highlight :: "BlockRef list \<Rightarrow> SVGChessBoard \<Rightarrow> SVGChessBoard" where
  "highlight bs s = markForCheck (s\<lparr>highlighted := bs\<rparr>)"

text \<open>
  \<^verbatim>\<open>registerDragAndDrop\<close>, as far as subscriptions go: the four streams it
  subscribes to, in the order of the source. What the handlers do is below.
\<close>

definition registerDragAndDrop :: "SVGChessBoard \<Rightarrow> SVGChessBoard" where
  "registerDragAndDrop s =
     subscribe_push TouchEnd (subscribe_push MouseUp
       (subscribe_push TouchDrag (subscribe_push MouseDrag s)))"

definition newGame_clear :: "SVGChessBoard \<Rightarrow> SVGChessBoard" where
  "newGame_clear s = clearSubscriptions s"

definition newGame_register :: "SVGChessBoard \<Rightarrow> SVGChessBoard" where
  "newGame_register s =
     markForCheck (registerDragAndDrop
       ((subscribe_push StateChanged (subscribe_push BoardSynced
          (blockUi False (busy False s))))\<lparr>banner := None\<rparr>))"

definition newGame :: "SVGChessBoard \<Rightarrow> unit Promise \<times> SVGChessBoard" where
  "newGame s = (Resolved (), newGame_register (newGame_clear s))"

text \<open>
  The discipline of \<open>subscribe_push\<close>: every live listener is recorded in
  \<open>rxWaste\<close>, and every recorded subscription was handed out before \<open>nextSub\<close>.
\<close>

definition subs_tracked :: "SVGChessBoard \<Rightarrow> bool" where
  "subs_tracked s =
     (dom (live s) \<subseteq> set (rxWaste s) \<and> (\<forall>u \<in> set (rxWaste s). u < nextSub s))"

subsection \<open>Operations of the piece component\<close>

text \<open>
  Modelled from the spec: the class \<^verbatim>\<open>SVGChessPiece\<close> (\<^verbatim>\<open>dragStart\<close>,
  \<^verbatim>\<open>dragEnd\<close>, \<^verbatim>\<open>setCoordinates\<close>, \<^verbatim>\<open>reset\<close> and the setter of
  \<^verbatim>\<open>block\<close>) is declared outside this file. The specification has the piece
  handle enter a lifted visual state at the start of a drag, accumulate each delta
  into its live render offset, clear the lifted state when the drag is finalised, and
  settle on its square in a transition of a given duration on reset (the component
  says of it: \<open>we need to reset back to place\<close>). The setter is described by the
  comment in \<^verbatim>\<open>syncPiecesToBlocks\<close>: assigning \<^verbatim>\<open>piece.block = block\<close> also
  does \<^verbatim>\<open>block.piece = piece\<close>.
\<close>

definition dragStart :: "SVGChessPiece \<Rightarrow> SVGChessPiece" where
  "dragStart c = c\<lparr>isDragged := True\<rparr>"

definition dragEnd :: "SVGChessPiece \<Rightarrow> SVGChessPiece" where
  "dragEnd c = c\<lparr>isDragged := False\<rparr>"


definition reset :: "nat \<Rightarrow> SVGChessPiece \<Rightarrow> SVGChessPiece" where
  "reset d c = c\<lparr>offset := (Finite 0, Finite 0), settle := Some d\<rparr>"

definition upd_piece ::
  "SVGChessPieceRef \<Rightarrow> (SVGChessPiece \<Rightarrow> SVGChessPiece) \<Rightarrow> SVGChessBoard \<Rightarrow> SVGChessBoard" where
  "upd_piece c f s = s\<lparr>pieceCmp := (pieceCmp s)(c := f (pieceCmp s c))\<rparr>"

definition set_block :: "SVGChessPieceRef \<Rightarrow> SVGChessBlockRef \<Rightarrow> SVGChessBoard \<Rightarrow> SVGChessBoard" where
  "set_block c b s =
     s\<lparr>pieceCmp := (pieceCmp s)(c := (pieceCmp s c)\<lparr>pc_block := Some b\<rparr>),
       blockCmp := (blockCmp s)(b := (blockCmp s b)\<lparr>bc_piece := Some c\<rparr>)\<rparr>"

text \<open>The logical square of the piece a piece component shows: \<^verbatim>\<open>p.piece.block\<close>.\<close>

definition piece_block :: "SVGChessBoard \<Rightarrow> SVGChessPieceRef \<Rightarrow> BlockRef" where
  "piece_block s c = block (pieceObj (engine s) (piece (pieceCmp s c)))"

definition piece_color :: "SVGChessBoard \<Rightarrow> SVGChessPieceRef \<Rightarrow> PieceColor" where
  "piece_color s c = color (pieceObj (engine s) (piece (pieceCmp s c)))"

subsection \<open>Viewport ratio\<close>

text \<open>
  \<^verbatim>\<open>a || b\<close> on numbers takes \<open>b\<close> when \<open>a\<close> is \<open>0\<close>. Where both sizes are
  \<open>0\<close> the ratio is \<^verbatim>\<open>Infinity\<close>.
\<close>

definition renderedWidth :: "SVGElement \<Rightarrow> real" where
  "renderedWidth e = (if clientWidth e \<noteq> 0 then clientWidth e else parentClientWidth e)"

definition renderedHeight :: "SVGElement \<Rightarrow> real" where
  "renderedHeight e = (if clientHeight e \<noteq> 0 then clientHeight e else parentClientHeight e)"

definition ratioX :: "SVGChessBoard \<Rightarrow> number" where
  "ratioX s = n_div width (renderedWidth (boardEl s))"

definition ratioY :: "SVGChessBoard \<Rightarrow> number" where
  "ratioY s = n_div height (renderedHeight (boardEl s))"

text \<open>
  \<^verbatim>\<open>BaseBlock.pointToIndex\<close> is a parameter on finite coordinates. Its arithmetic
  on a coordinate that is not finite gives no index of an array, so that the lookup in
  the block components is \<^verbatim>\<open>undefined\<close> and no index of a block equals it.
\<close>

definition point_index :: "SVGChessBoard \<Rightarrow> number \<Rightarrow> number \<Rightarrow> int option" where
  "point_index s x y =
     (case x of
        Finite a \<Rightarrow> (case y of Finite b \<Rightarrow> Some (pointToIndex s a b) | NonFinite \<Rightarrow> None)
      | NonFinite \<Rightarrow> None)"

subsection \<open>Starting a drag\<close>

definition onPieceDrag :: "SVGChessPieceRef \<Rightarrow> SVGChessBoard \<Rightarrow> SVGChessBoard" where
  "onPieceDrag c s = s\<lparr>dragPiece := Some c\<rparr>"

text \<open>
  What the closure of one gesture holds: the previous sample and the viewport ratio
  taken when the gesture started. The touch path also keeps the bounding rectangle it
  read at the start.
\<close>

record Gesture =
  lastX :: real
  lastY :: real
  viewPortRatioX :: number
  viewPortRatioY :: number

record TouchGesture = Gesture +
  rect_left :: real
  rect_top :: real

text \<open>
  The callback given to \<^verbatim>\<open>mousedown.flatMap\<close>. \<open>None\<close> is the empty stream
  \<^verbatim>\<open>[]\<close>; otherwise the gesture whose stream \<open>mousedrag_stream\<close> unfolds.
\<close>

definition mousedown :: "Coords \<Rightarrow> SVGChessBoard \<Rightarrow> Gesture option \<times> SVGChessBoard" where
  "mousedown md s =
     (if isDisabled s \<or> dragPiece s = None then (None, s)
      else case dragPiece s of
        None \<Rightarrow> (None, s)
      | Some d \<Rightarrow>
          if piece_color s d \<noteq> turn (engine s) then (None, s)
          else
            let vx = ratioX s; vy = ratioY s;
                s1 = upd_piece d dragStart s;
                s2 = highlight (moves (engine s1) (piece (pieceCmp s1 d))) s1
            in (Some \<lparr>lastX = pageX md, lastY = pageY md,
                       viewPortRatioX = vx, viewPortRatioY = vy\<rparr>, s2))"

text \<open>
  The callback given to \<^verbatim>\<open>mousemove.map\<close>: the scale and the translation are read
  from the element as it is when the sample arrives.
\<close>

definition mousemove_map :: "SVGElement \<Rightarrow> Coords \<Rightarrow> Gesture \<Rightarrow> (number \<times> number) \<times> Gesture" where
  "mousemove_map el mm g =
     (let newScale = currentScale el;
          x = n_div (pageX mm - currentTranslateX el) newScale;
          y = n_div (pageY mm - currentTranslateY el) newScale;
          rx = n_sub x (lastX g);
          ry = n_sub y (lastY g);
          g' = g\<lparr>lastX := pageX mm, lastY := pageY mm\<rparr>
      in ((n_mul rx (viewPortRatioX g), n_mul ry (viewPortRatioY g)), g'))"

text \<open>
  The updates of one gesture, for the samples that arrive before the next
  \<^verbatim>\<open>mouseup\<close> (\<^verbatim>\<open>takeUntil\<close>).
\<close>

fun mousedrag_stream :: "Gesture \<Rightarrow> (SVGElement \<times> Coords) list \<Rightarrow> (number \<times> number) list" where
  "mousedrag_stream g [] = []"
| "mousedrag_stream g (m # ms) =
     (case mousemove_map (fst m) (snd m) g of (res, g') \<Rightarrow> res # mousedrag_stream g' ms)"

definition mousedrag ::
  "Coords \<Rightarrow> (SVGElement \<times> Coords) list \<Rightarrow> SVGChessBoard
     \<Rightarrow> (number \<times> number) list \<times> SVGChessBoard" where
  "mousedrag md ms s =
     (case mousedown md s of
        (None, s') \<Rightarrow> ([], s')
      | (Some g, s') \<Rightarrow> (mousedrag_stream g ms, s'))"

text \<open>
  On the touch path the candidate is the first piece component whose piece stands on
  the block of the index the first touch point maps to.
\<close>

definition touch_candidate :: "Coords \<Rightarrow> SVGChessBoard \<Rightarrow> SVGChessPieceRef option" where
  "touch_candidate t s =
     (let lx = pageX t - rectLeft (boardEl s);
          ly = pageY t - rectTop (boardEl s);
          dropBlockIndex = point_index s (n_mul (Finite lx) (ratioX s)) (n_mul (Finite ly) (ratioY s))
      in first_where (\<lambda>p. Some (index (blockObj (engine s) (piece_block s p))) = dropBlockIndex)
           (pieces s))"

text \<open>The callback given to \<^verbatim>\<open>touchstart.flatMap\<close>; its argument is \<^verbatim>\<open>md.touches\<close>.\<close>

definition touchstart :: "Coords list \<Rightarrow> SVGChessBoard \<Rightarrow> TouchGesture option \<times> SVGChessBoard" where
  "touchstart touches s =
     (if isDisabled s then (None, s)
      else case touches of
        [] \<Rightarrow> (None, s)
      | t # _ \<Rightarrow>
          let s0 = s\<lparr>dragPiece := touch_candidate t s\<rparr> in
          (case dragPiece s0 of
             None \<Rightarrow> (None, s0)
           | Some d \<Rightarrow>
               if piece_color s0 d \<noteq> turn (engine s0) then (None, s0)
               else
                 let vx = ratioX s0; vy = ratioY s0;
                     s1 = upd_piece d dragStart s0;
                     s2 = highlight (moves (engine s1) (piece (pieceCmp s1 d))) s1
                 in (Some \<lparr>lastX = pageX t - rectLeft (boardEl s),
                            lastY = pageY t - rectTop (boardEl s),
                            viewPortRatioX = vx, viewPortRatioY = vy,
                            rect_left = rectLeft (boardEl s),
                            rect_top = rectTop (boardEl s)\<rparr>, s2)))"

text \<open>
  The callback given to \<^verbatim>\<open>touchmove.map\<close>; reading \<^verbatim>\<open>mm.touches[0]\<close> of an
  empty list is a \<^verbatim>\<open>TypeError\<close>, which ends the stream.
\<close>

definition touchmove_map ::
  "SVGElement \<Rightarrow> Coords list \<Rightarrow> TouchGesture \<Rightarrow> error + ((number \<times> number) \<times> TouchGesture)" where
  "touchmove_map el touches g =
     (case touches of
        [] \<Rightarrow> Inl TypeError
      | t # _ \<Rightarrow>
          let x0 = pageX t - rect_left g;
              y0 = pageY t - rect_top g;
              newScale = currentScale el;
              x = n_div (x0 - currentTranslateX el) newScale;
              y = n_div (y0 - currentTranslateY el) newScale;
              rx = n_sub x (lastX g);
              ry = n_sub y (lastY g);
              g' = g\<lparr>lastX := pageX t - rect_left g, lastY := pageY t - rect_top g\<rparr>
          in Inr ((n_mul rx (viewPortRatioX g), n_mul ry (viewPortRatioY g)), g'))"

fun touchdrag_stream ::
  "TouchGesture \<Rightarrow> (SVGElement \<times> Coords list) list \<Rightarrow> (number \<times> number) list" where
  "touchdrag_stream g [] = []"
| "touchdrag_stream g (m # ms) =
     (case touchmove_map (fst m) (snd m) g of
        Inl e \<Rightarrow> []
      | Inr (res, g') \<Rightarrow> res # touchdrag_stream g' ms)"

definition touchdrag ::
  "Coords list \<Rightarrow> (SVGElement \<times> Coords list) list \<Rightarrow> SVGChessBoard
     \<Rightarrow> (number \<times> number) list \<times> SVGChessBoard" where
  "touchdrag touches ms s =
     (case touchstart touches s of
        (None, s') \<Rightarrow> ([], s')
      | (Some g, s') \<Rightarrow> (touchdrag_stream g ms, s'))"


subsection \<open>The view reconciler\<close>

text \<open>
  The inner \<^verbatim>\<open>for\<close> loop over the snapshot of the piece components, leaving at the
  first match; the flag is \<^verbatim>\<open>found\<close>.
\<close>

fun sync_loop :: "SVGChessBlockRef \<Rightarrow> SVGChessPieceRef list \<Rightarrow> SVGChessBoard \<Rightarrow> bool \<times> SVGChessBoard" where
  "sync_loop b [] s = (False, s)"
| "sync_loop b (c # cs) s =
     (if bc_block (blockCmp s b) = piece_block s c
      then (True, upd_piece c (reset 150) (set_block c b s))
      else sync_loop b cs s)"

definition sync_block :: "SVGChessPieceRef list \<Rightarrow> SVGChessBoard \<Rightarrow> SVGChessBlockRef \<Rightarrow> SVGChessBoard" where
  "sync_block cs s b =
     (case sync_loop b cs s of
        (True, s') \<Rightarrow> s'
      | (False, s') \<Rightarrow> s'\<lparr>blockCmp := (blockCmp s')(b := (blockCmp s' b)\<lparr>bc_piece := None\<rparr>)\<rparr>)"

definition syncPiecesToBlocks :: "SVGChessBoard \<Rightarrow> SVGChessBoard" where
  "syncPiecesToBlocks s = foldl (sync_block (pieces s)) s (blocks s)"

subsection \<open>The UI move operation\<close>

text \<open>
  With no component for the piece, and the piece in the engine's collection, the call
  is handed to \<^verbatim>\<open>setTimeout\<close>. Assigning \<^verbatim>\<open>undefined\<close> to \<^verbatim>\<open>block\<close> (no
  block component at the piece's index) makes the setter write a property of
  \<^verbatim>\<open>undefined\<close>.
\<close>

definition move :: "PieceRef \<Rightarrow> SVGChessBoard \<Rightarrow> error + SVGChessBoard" where
  "move p s =
     (case first_where (\<lambda>c. piece (pieceCmp s c) = p) (pieces s) of
        Some c \<Rightarrow>
          (case at_index (blocks s) (index (blockObj (engine s) (block (pieceObj (engine s) p)))) of
             Some b \<Rightarrow> Inr (upd_piece c (reset 150) (set_block c b s))
           | None \<Rightarrow> Inl TypeError)
      | None \<Rightarrow>
          if p \<in> set (engine_pieces (engine s)) then Inr (s\<lparr>timers := timers s @ [p]\<rparr>)
          else Inr s)"

text \<open>The event loop runs the oldest callback handed to \<^verbatim>\<open>setTimeout\<close>.\<close>

definition runTimer :: "SVGChessBoard \<Rightarrow> error + SVGChessBoard" where
  "runTimer s =
     (case timers s of
        [] \<Rightarrow> Inr s
      | p # ps \<Rightarrow> move p (s\<lparr>timers := ps\<rparr>))"

subsection \<open>Dropping a piece\<close>

definition endDragAndDrop :: "SVGChessBoard \<Rightarrow> error + SVGChessBoard" where
  "endDragAndDrop s =
     (case dragPiece s of
        None \<Rightarrow> Inl TypeError
      | Some d \<Rightarrow> Inr ((upd_piece d dragEnd s)\<lparr>dragPiece := None, highlighted := []\<rparr>))"

definition dropPoint :: "UIEvent \<Rightarrow> error + (real \<times> real)" where
  "dropPoint mu =
     (case mu of
        MouseEvent c \<Rightarrow> Inr (clientX c, clientY c)
      | TouchEvent touches changedTouches \<Rightarrow>
          (case changedTouches of
             [] \<Rightarrow> Inl TypeError
           | c # _ \<Rightarrow> Inr (clientX c, clientY c)))"

definition dropBlockOf :: "real \<times> real \<Rightarrow> SVGChessBoard \<Rightarrow> SVGChessBlockRef option" where
  "dropBlockOf xy s =
     (let x = fst xy - rectLeft (boardEl s);
          y = snd xy - rectTop (boardEl s);
          dropBlockIndex = point_index s (n_mul (Finite x) (ratioX s)) (n_mul (Finite y) (ratioY s))
      in case dropBlockIndex of None \<Rightarrow> None | Some i \<Rightarrow> at_index (blocks s) i)"

text \<open>
  The synchronous part of \<^verbatim>\<open>dropPiece\<close>. The first component of the result is the
  request made of the move authority, \<^verbatim>\<open>this.ctrl.move(piece, block)\<close>, or
  \<open>None\<close> when the authority is not called.
\<close>

definition dropPiece ::
  "UIEvent \<Rightarrow> SVGChessBoard \<Rightarrow> error + ((PieceRef \<times> BlockRef) option \<times> SVGChessBoard)" where
  "dropPiece mu s =
     (case dropPoint mu of
        Inl e \<Rightarrow> Inl e
      | Inr xy \<Rightarrow>
          (case dropBlockOf xy s of
             Some b \<Rightarrow>
               (case dragPiece s of
                  None \<Rightarrow> Inl TypeError
                | Some d \<Rightarrow> Inr (Some (piece (pieceCmp s d), bc_block (blockCmp s b)), s))
           | None \<Rightarrow>
               (case endDragAndDrop s of
                  Inl e \<Rightarrow> Inl e
                | Inr s' \<Rightarrow> Inr (None, s'))))"

text \<open>The listeners of \<^verbatim>\<open>mouseup\<close> and \<^verbatim>\<open>touchend\<close>.\<close>

definition pointer_up ::
  "UIEvent \<Rightarrow> SVGChessBoard \<Rightarrow> error + ((PieceRef \<times> BlockRef) option \<times> SVGChessBoard)" where
  "pointer_up mu s = (case dragPiece s of None \<Rightarrow> Inr (None, s) | Some d \<Rightarrow> dropPiece mu s)"

text \<open>The callback given to \<^verbatim>\<open>then\<close>: it runs when the authority has answered.\<close>

definition dropPiece_then :: "Move \<Rightarrow> SVGChessBoard \<Rightarrow> error + SVGChessBoard" where
  "dropPiece_then m s =
     (if invalid m then
        (case dragPiece s of
           None \<Rightarrow> Inl TypeError
         | Some d \<Rightarrow> endDragAndDrop (upd_piece d (reset 150) s))
      else if isCastlingMove m then endDragAndDrop (syncPiecesToBlocks s)
      else endDragAndDrop s)"

subsection \<open>Promotion\<close>

definition askPromotionType :: "SVGChessBoard \<Rightarrow> PieceType Promise" where
  "askPromotionType s = Resolved QUEEN"

subsection \<open>Position updates, in the words of the specification\<close>

text \<open>
  The board-local position of a sample (translation removed, then divided by the
  scale the element has when the sample arrives), the position a mouse or touch
  sample reports (a touch relative to the bounding rectangle read at the start of the
  gesture), and a delta scaled per axis.
\<close>

definition board_local :: "SVGElement \<Rightarrow> real \<times> real \<Rightarrow> number \<times> number" where
  "board_local el p =
     (n_div (fst p - currentTranslateX el) (currentScale el),
      n_div (snd p - currentTranslateY el) (currentScale el))"

definition scaled_delta ::
  "number \<times> number \<Rightarrow> number \<times> number \<Rightarrow> real \<times> real \<Rightarrow> number \<times> number" where
  "scaled_delta ratio cur prev =
     (n_mul (n_sub (fst cur) (fst prev)) (fst ratio), n_mul (n_sub (snd cur) (snd prev)) (snd ratio))"

definition mouse_pos :: "Coords \<Rightarrow> real \<times> real" where
  "mouse_pos c = (pageX c, pageY c)"

definition touch_pos :: "real \<times> real \<Rightarrow> Coords list \<Rightarrow> real \<times> real" where
  "touch_pos r ts = (pageX (hd ts) - fst r, pageY (hd ts) - snd r)"

subsection \<open>Pairing of piece and block components\<close>

text \<open>
  The logical block a block component shows (\<^verbatim>\<open>b.block\<close>), and the piece
  component a block is matched with by the reconciler: the first one of the snapshot
  whose piece stands on that logical block, compared by reference.
\<close>

definition block_key :: "SVGChessBoard \<Rightarrow> SVGChessBlockRef \<Rightarrow> BlockRef" where
  "block_key s b = bc_block (blockCmp s b)"

definition matched :: "SVGChessBoard \<Rightarrow> SVGChessPieceRef list \<Rightarrow> SVGChessBlockRef \<Rightarrow> SVGChessPieceRef option" where
  "matched s cs b = first_where (\<lambda>c. block_key s b = piece_block s c) cs"

text \<open>
  The pairing the specification asks of the reconciler: every piece component is
  paired with the block component that shows the logical block of its piece, and that
  block component refers back to it; a block component on whose logical block no
  rendered piece stands refers to no piece.
\<close>

definition pieces_paired :: "SVGChessBoard \<Rightarrow> bool" where
  "pieces_paired s =
     (\<forall>c \<in> set (pieces s). \<forall>b \<in> set (blocks s).
        block_key s b = piece_block s c \<longrightarrow>
          pc_block (pieceCmp s c) = Some b \<and> bc_piece (blockCmp s b) = Some c)"

definition empty_blocks_cleared :: "SVGChessBoard \<Rightarrow> bool" where
  "empty_blocks_cleared s =
     (\<forall>b \<in> set (blocks s).
        (\<forall>c \<in> set (pieces s). piece_block s c \<noteq> block_key s b) \<longrightarrow> bc_piece (blockCmp s b) = None)"

text \<open>
  A chess position as rendered: no two rendered pieces stand on the same logical
  block, and no two block components show the same logical block.
\<close>

definition distinct_squares :: "SVGChessBoard \<Rightarrow> bool" where
  "distinct_squares s =
     (inj_on (piece_block s) (set (pieces s)) \<and> inj_on (block_key s) (set (blocks s)))"

subsection \<open>The move authority\<close>




section \<open>A small board\<close>

text \<open>
  A board of two rows: block components 10 to 13 show the logical blocks 20 to 23 of
  index 0 to 3; the piece components 40, 41 and 42 show a white piece on index 0, a
  black piece on index 3 and a white piece on index 1. The element is rendered at half
  its authored size, and six listeners of a game in progress are subscribed.
\<close>

definition ex_engine :: ChessEngine where
  "ex_engine =
     \<lparr>turn = WHITE,
      moves = (\<lambda>p. if p = 30 then [22] else if p = 32 then [22, 23] else []),
      engine_pieces = [30, 31, 32],
      pieceObj = (\<lambda>p. if p = 30 then \<lparr>color = WHITE, block = 20\<rparr>
                       else if p = 31 then \<lparr>color = BLACK, block = 23\<rparr>
                       else \<lparr>color = WHITE, block = 21\<rparr>),
      blockObj = (\<lambda>b. \<lparr>index = int b - 20\<rparr>)\<rparr>"

definition ex_el :: SVGElement where
  "ex_el =
     \<lparr>clientWidth = 300, clientHeight = 300, parentClientWidth = 0, parentClientHeight = 0,
      rectLeft = 10, rectTop = 20, currentScale = 1,
      currentTranslateX = 0, currentTranslateY = 0\<rparr>"

definition ex_board :: SVGChessBoard where
  "ex_board =
     \<lparr>dragPiece = None,
      rxWaste = [0, 1, 2, 3, 4, 5],
      isBusy = False,
      isDisabled = False,
      banner = None,
      highlighted = [],
      blocks = [10, 11, 12, 13],
      pieces = [40, 41, 42],
      pieceCmp = (\<lambda>c. if c = 40 then \<lparr>piece = 30, pc_block = Some 10, isDragged = False,
                          offset = (Finite 0, Finite 0), settle = None\<rparr>
                       else if c = 41 then \<lparr>piece = 31, pc_block = Some 13, isDragged = False,
                          offset = (Finite 0, Finite 0), settle = None\<rparr>
                       else \<lparr>piece = 32, pc_block = Some 11, isDragged = False,
                          offset = (Finite 0, Finite 0), settle = None\<rparr>),
      blockCmp = (\<lambda>b. \<lparr>bc_block = b + 10,
                        bc_piece = (if b = 10 then Some 40 else if b = 13 then Some 41
                                    else if b = 11 then Some 42 else None)\<rparr>),
      engine = ex_engine,
      boardEl = ex_el,
      live = [0 \<mapsto> BoardSynced, 1 \<mapsto> StateChanged, 2 \<mapsto> MouseDrag, 3 \<mapsto> TouchDrag,
              4 \<mapsto> MouseUp, 5 \<mapsto> TouchEnd],
      nextSub = 6,
      timers = [],
      markedForCheck = False,
      pointToIndex = (\<lambda>x y. \<lfloor>y / 300\<rfloor> * 2 + \<lfloor>x / 300\<rfloor>)\<rparr>"

subsection \<open>Sample events on the small board\<close>

definition ex_md :: Coords where
  "ex_md = \<lparr>pageX = 20, pageY = 30, clientX = 20, clientY = 30\<rparr>"

definition ex_ms :: "(SVGElement \<times> Coords) list" where
  "ex_ms =
     [(ex_el, \<lparr>pageX = 25, pageY = 32, clientX = 25, clientY = 32\<rparr>),
      (ex_el\<lparr>clientWidth := 150, clientHeight := 150, currentScale := 2\<rparr>,
       \<lparr>pageX = 40, pageY = 50, clientX = 40, clientY = 50\<rparr>)]"

definition ex_touch :: Coords where
  "ex_touch = \<lparr>pageX = 210, pageY = 70, clientX = 210, clientY = 70\<rparr>"

definition ex_touch_black :: Coords where
  "ex_touch_black = \<lparr>pageX = 210, pageY = 220, clientX = 210, clientY = 220\<rparr>"

definition ex_tms :: "(SVGElement \<times> Coords list) list" where
  "ex_tms =
     [(ex_el\<lparr>clientWidth := 150, clientHeight := 150\<rparr>,
       [\<lparr>pageX = 215, pageY = 72, clientX = 215, clientY = 72\<rparr>])]"

definition ex_picked :: SVGChessBoard where
  "ex_picked = onPieceDrag 40 ex_board"

definition ex_dragging :: SVGChessBoard where
  "ex_dragging = snd (mousedown ex_md ex_picked)"

subsection \<open>Drops, answers of the authority and later render passes\<close>

definition ex_tg :: TouchGesture where
  "ex_tg = \<lparr>lastX = 200, lastY = 50, viewPortRatioX = Finite 2, viewPortRatioY = Finite 2,
            rect_left = 10, rect_top = 20\<rparr>"

definition ex_g :: Gesture where
  "ex_g = \<lparr>lastX = 20, lastY = 30, viewPortRatioX = Finite 2, viewPortRatioY = Finite 2\<rparr>"

definition ex_drop_black :: UIEvent where
  "ex_drop_black = MouseEvent \<lparr>pageX = 210, pageY = 220, clientX = 210, clientY = 220\<rparr>"



definition ex_rejected :: Move where
  "ex_rejected = \<lparr>invalid = True, isCastlingMove = False\<rparr>"

definition ex_castling :: Move where
  "ex_castling = \<lparr>invalid = False, isCastlingMove = True\<rparr>"

text \<open>
  The board when the answer to a castling move arrives: the piece of component 40
  stands on index 2 and the piece of component 42 on index 0.
\<close>

definition ex_castled :: SVGChessBoard where
  "ex_castled =
     ex_dragging\<lparr>engine := ex_engine\<lparr>pieceObj :=
       (\<lambda>p. if p = 30 then \<lparr>color = WHITE, block = 22\<rparr>
            else if p = 31 then \<lparr>color = BLACK, block = 23\<rparr>
            else \<lparr>color = WHITE, block = 20\<rparr>)\<rparr>\<rparr>"

text \<open>
  A piece in the engine's collection with no component yet, and the board one render
  pass later, with the component 43 for it and the deferred call pending.
\<close>

definition ex_unrendered :: SVGChessBoard where
  "ex_unrendered =
     ex_board\<lparr>engine := ex_engine\<lparr>engine_pieces := [30, 31, 32, 33],
       pieceObj := (\<lambda>p. if p = 33 then \<lparr>color = WHITE, block = 22\<rparr> else pieceObj ex_engine p)\<rparr>\<rparr>"

definition ex_rendered :: SVGChessBoard where
  "ex_rendered =
     ex_unrendered\<lparr>pieces := [40, 41, 42, 43],
       pieceCmp := (pieceCmp ex_unrendered)
         (43 := \<lparr>piece = 33, pc_block = None, isDragged = False,
                          offset = (Finite 0, Finite 0), settle = None\<rparr>),
       timers := [33]\<rparr>"







section \<open>Properties\<close>

subsection \<open>Subscriptions are drained on a new game\<close>

lemma clearSubscriptions_rxWaste: "rxWaste (clearSubscriptions s) = []"
proof (induction s rule: clearSubscriptions.induct)
  case (1 s)
  show ?case
  proof (cases "length (rxWaste s) > 0")
    case True
    with 1 show ?thesis by (subst clearSubscriptions.simps) simp
  next
    case False
    then show ?thesis by (subst clearSubscriptions.simps) simp
  qed
qed

lemma clearSubscriptions_live:
  "live (clearSubscriptions s) = live s |` (- set (rxWaste s))"
proof (induction s rule: clearSubscriptions.induct)
  case (1 s)
  show ?case
  proof (cases "rxWaste s = []")
    case True
    then show ?thesis by (subst clearSubscriptions.simps) (simp add: restrict_map_def)
  next
    case False
    then have ne: "length (rxWaste s) > 0" by simp
    let ?s' = "unsubscribe (last (rxWaste s)) (s\<lparr>rxWaste := butlast (rxWaste s)\<rparr>)"
    have step: "clearSubscriptions s = clearSubscriptions ?s'"
      using ne by (subst clearSubscriptions.simps) simp
    have ih: "live (clearSubscriptions ?s') = live ?s' |` (- set (rxWaste ?s'))"
      using 1 ne by simp
    have decomp: "set (rxWaste s) = insert (last (rxWaste s)) (set (butlast (rxWaste s)))"
      using False by (metis append_butlast_last_id list.simps(15) rotate1.simps(2) set_rotate1)
    have "live ?s' |` (- set (rxWaste ?s')) = live s |` (- set (rxWaste s))"
      unfolding decomp by (auto simp: unsubscribe_def restrict_map_def fun_eq_iff)
    with step ih show ?thesis by simp
  qed
qed

lemma clearSubscriptions_nextSub: "nextSub (clearSubscriptions s) = nextSub s"
proof (induction s rule: clearSubscriptions.induct)
  case (1 s)
  show ?case
  proof (cases "length (rxWaste s) > 0")
    case True
    with 1 show ?thesis by (subst clearSubscriptions.simps) (simp add: unsubscribe_def)
  next
    case False
    then show ?thesis by (subst clearSubscriptions.simps) simp
  qed
qed

lemma newGame_register_live_dom:
  "dom (live (newGame_register s)) = dom (live s) \<union> {nextSub s ..< nextSub s + 6}"
  by (auto simp: newGame_register_def registerDragAndDrop_def subscribe_push_def
      markForCheck_def blockUi_def busy_def)

lemma newGame_register_rxWaste:
  "rxWaste (newGame_register s) = rxWaste s @ [nextSub s ..< nextSub s + 6]"
  by (simp add: newGame_register_def registerDragAndDrop_def subscribe_push_def
      markForCheck_def blockUi_def busy_def upt_rec [of "nextSub s"] upt_rec [of "Suc _"])

text \<open>
  C6. A new game cancels before it registers: \<open>newGame\<close> is the registration step
  applied to the outcome of the cancellation step. Just after the cancellation step
  the recorded subscriptions are none and no listener is live; after the whole call no
  subscription recorded for the previous game is live, and the discipline that
  every live listener is recorded holds again.
\<close>

theorem newGame_cancels_previous_listeners:
  assumes "subs_tracked s"
  shows "snd (newGame s) = newGame_register (newGame_clear s)
       \<and> rxWaste (newGame_clear s) = []
       \<and> live (newGame_clear s) = Map.empty
       \<and> set (rxWaste s) \<inter> dom (live (snd (newGame s))) = {}
       \<and> subs_tracked (snd (newGame s))"
proof -
  let ?c = "newGame_clear s"
  have waste: "rxWaste ?c = []"
    by (simp add: newGame_clear_def clearSubscriptions_rxWaste)
  have "dom (live ?c) = {}"
    using assms
    by (auto simp: newGame_clear_def clearSubscriptions_live subs_tracked_def restrict_map_def
        dom_def split: if_splits)
  then have none: "live ?c = Map.empty" by simp
  have nxt: "nextSub ?c = nextSub s"
    by (simp add: newGame_clear_def clearSubscriptions_nextSub)
  have dom_new: "dom (live (newGame_register ?c)) = {nextSub s ..< nextSub s + 6}"
    by (simp add: newGame_register_live_dom none nxt)
  have old: "set (rxWaste s) \<inter> dom (live (newGame_register ?c)) = {}"
    using assms unfolding dom_new subs_tracked_def by fastforce
  have tracked: "subs_tracked (newGame_register ?c)"
    unfolding subs_tracked_def newGame_register_rxWaste dom_new waste nxt
    by (auto simp: newGame_register_def registerDragAndDrop_def subscribe_push_def
        markForCheck_def blockUi_def busy_def nxt)
  show ?thesis
    using waste none old tracked by (simp add: newGame_def)
qed

theorem newGame_cancels_previous_listeners_witness:
  "subs_tracked ex_board
   \<and> rxWaste (newGame_clear ex_board) = []
   \<and> live (newGame_clear ex_board) = Map.empty
   \<and> set (rxWaste ex_board) \<inter> dom (live (snd (newGame ex_board))) = {}"
proof -
  have h: "subs_tracked ex_board"
    by (simp add: subs_tracked_def ex_board_def)
  show ?thesis
    using h newGame_cancels_previous_listeners [OF h] by blast
qed

text \<open>
  C10. Whatever the state of the board, \<open>askPromotionType\<close> gives a promise that is
  already resolved, and resolved to the queen: the results of all calls are this one
  value.
\<close>

theorem askPromotionType_always_queen:
  "range askPromotionType = {Resolved QUEEN}"
  by (auto simp: askPromotionType_def)

subsection \<open>Gestures\<close>

lemma mousedrag_stream_length: "length (mousedrag_stream g ms) = length ms"
  by (induction ms arbitrary: g) (auto simp: mousemove_map_def Let_def)

lemma mousedrag_stream_nth:
  "i < length ms \<Longrightarrow>
   mousedrag_stream g ms ! i =
     scaled_delta (viewPortRatioX g, viewPortRatioY g)
       (board_local (fst (ms ! i)) (mouse_pos (snd (ms ! i))))
       (if i = 0 then (lastX g, lastY g) else mouse_pos (snd (ms ! (i - 1))))"
proof (induction ms arbitrary: g i)
  case Nil
  then show ?case by simp
next
  case (Cons m ms)
  show ?case
  proof (cases i)
    case 0
    then show ?thesis
      by (simp add: mousemove_map_def Let_def scaled_delta_def board_local_def mouse_pos_def)
  next
    case (Suc j)
    with Cons.prems have j: "j < length ms" by simp
    show ?thesis
      using Cons.IH [OF j, of "snd (mousemove_map (fst m) (snd m) g)"] Suc
      by (cases j) (simp_all add: mousemove_map_def Let_def mouse_pos_def)
  qed
qed

lemma touchdrag_stream_nth:
  "i < length ms \<Longrightarrow> \<forall>m \<in> set ms. snd m \<noteq> [] \<Longrightarrow>
   length (touchdrag_stream g ms) = length ms \<and>
   touchdrag_stream g ms ! i =
     scaled_delta (viewPortRatioX g, viewPortRatioY g)
       (board_local (fst (ms ! i)) (touch_pos (rect_left g, rect_top g) (snd (ms ! i))))
       (if i = 0 then (lastX g, lastY g) else touch_pos (rect_left g, rect_top g) (snd (ms ! (i - 1))))"
proof (induction ms arbitrary: g i)
  case Nil
  then show ?case by simp
next
  case (Cons m ms)
  from Cons.prems obtain t ts where m: "snd m = t # ts"
    by (cases "snd m") auto
  let ?g' = "g\<lparr>lastX := pageX t - rect_left g, lastY := pageY t - rect_top g\<rparr>"
  have all: "\<forall>m \<in> set ms. snd m \<noteq> []" using Cons.prems by simp
  show ?case
  proof (cases i)
    case 0
    have "length (touchdrag_stream ?g' ms) = length ms"
    proof (cases ms)
      case Nil
      then show ?thesis by simp
    next
      case (Cons a list)
      then show ?thesis using Cons.IH [of 0 ?g'] all by simp
    qed
    then show ?thesis using 0 m
      by (simp add: touchmove_map_def Let_def scaled_delta_def board_local_def touch_pos_def)
  next
    case (Suc j)
    with Cons.prems have j: "j < length ms" by simp
    show ?thesis
      using Cons.IH [OF j all, of ?g'] Suc m
      by (cases j) (simp_all add: touchmove_map_def Let_def touch_pos_def)
  qed
qed

lemma scaled_delta_finite:
  "scaled_delta (Finite rx, Finite ry) (Finite cx, Finite cy) prev =
     (Finite ((cx - fst prev) * rx), Finite ((cy - snd prev) * ry))"
  by (simp add: scaled_delta_def n_sub_def n_mul_def)

lemma board_local_finite:
  "currentScale el \<noteq> 0 \<Longrightarrow>
   board_local el p =
     (Finite ((fst p - currentTranslateX el) / currentScale el),
      Finite ((snd p - currentTranslateY el) / currentScale el))"
  by (simp add: board_local_def n_div_def)

lemmas ex_defs = ex_board_def ex_engine_def ex_el_def ex_md_def ex_ms_def ex_touch_def
  ex_touch_black_def ex_tms_def ex_picked_def

lemmas num_defs = n_div_def n_sub_def n_mul_def n_add_def point_index_def

lemmas geom_defs = ratioX_def ratioY_def renderedWidth_def renderedHeight_def width_def height_def
  num_defs

text \<open>
  C8. In a gesture that has started, on the mouse path and on the touch path, the
  update emitted for a sample is the board-local position of that sample minus the
  position reported by the previous sample (for the first sample, by the start
  event), times the viewport ratio of the board as it was when the gesture started:
  the size the element has when a sample arrives plays no part. Where the element
  had no size at the start, or has the scale \<open>0\<close> when the sample arrives, the update
  is not finite.
\<close>

theorem position_updates_are_scaled_deltas:
  "(mousedown md s = (Some g, s') \<and> i < length ms \<longrightarrow>
      length (mousedrag_stream g ms) = length ms \<and>
      mousedrag_stream g ms ! i =
        scaled_delta (ratioX s, ratioY s)
          (board_local (fst (ms ! i)) (mouse_pos (snd (ms ! i))))
          (if i = 0 then mouse_pos md else mouse_pos (snd (ms ! (i - 1)))))
   \<and> (touchstart (t # ts) s = (Some tg, s') \<and> i < length tms \<and> (\<forall>m \<in> set tms. snd m \<noteq> []) \<longrightarrow>
      length (touchdrag_stream tg tms) = length tms \<and>
      touchdrag_stream tg tms ! i =
        scaled_delta (ratioX s, ratioY s)
          (board_local (fst (tms ! i)) (touch_pos (rectLeft (boardEl s), rectTop (boardEl s)) (snd (tms ! i))))
          (if i = 0 then touch_pos (rectLeft (boardEl s), rectTop (boardEl s)) (t # ts)
           else touch_pos (rectLeft (boardEl s), rectTop (boardEl s)) (snd (tms ! (i - 1)))))"
proof (intro conjI impI)
  assume a: "mousedown md s = (Some g, s') \<and> i < length ms"
  then have g: "g = \<lparr>lastX = pageX md, lastY = pageY md, viewPortRatioX = ratioX s, viewPortRatioY = ratioY s\<rparr>"
    by (auto simp: mousedown_def Let_def split: option.splits if_splits)
  show "length (mousedrag_stream g ms) = length ms"
    by (rule mousedrag_stream_length)
  show "mousedrag_stream g ms ! i =
        scaled_delta (ratioX s, ratioY s)
          (board_local (fst (ms ! i)) (mouse_pos (snd (ms ! i))))
          (if i = 0 then mouse_pos md else mouse_pos (snd (ms ! (i - 1))))"
    using a mousedrag_stream_nth [of i ms g] by (simp add: g mouse_pos_def)
next
  assume a: "touchstart (t # ts) s = (Some tg, s') \<and> i < length tms \<and> (\<forall>m \<in> set tms. snd m \<noteq> [])"
  then have g: "tg = \<lparr>lastX = pageX t - rectLeft (boardEl s), lastY = pageY t - rectTop (boardEl s),
        viewPortRatioX = ratioX s, viewPortRatioY = ratioY s,
        rect_left = rectLeft (boardEl s), rect_top = rectTop (boardEl s)\<rparr>"
    by (auto simp: touchstart_def Let_def ratioX_def ratioY_def split: option.splits if_splits)
  from a have all: "\<forall>m \<in> set tms. snd m \<noteq> []" by simp
  from a have i: "i < length tms" by simp
  show "length (touchdrag_stream tg tms) = length tms"
    using touchdrag_stream_nth [OF i all] by simp
  show "touchdrag_stream tg tms ! i =
        scaled_delta (ratioX s, ratioY s)
          (board_local (fst (tms ! i)) (touch_pos (rectLeft (boardEl s), rectTop (boardEl s)) (snd (tms ! i))))
          (if i = 0 then touch_pos (rectLeft (boardEl s), rectTop (boardEl s)) (t # ts)
           else touch_pos (rectLeft (boardEl s), rectTop (boardEl s)) (snd (tms ! (i - 1))))"
    using touchdrag_stream_nth [OF i all, of tg] by (simp add: g touch_pos_def)
qed

theorem position_updates_are_scaled_deltas_witness:
  "fst (mousedown ex_md ex_picked) = Some ex_g
   \<and> mousedrag_stream ex_g ex_ms ! 0 = (Finite 10, Finite 4)
   \<and> mousedrag_stream ex_g ex_ms ! 1 = (Finite (- 10), Finite (- 14))
   \<and> fst (touchstart [ex_touch] ex_picked) = Some ex_tg
   \<and> touchdrag_stream ex_tg ex_tms ! 0 = (Finite 10, Finite 4)"
proof -
  have m1: "fst (mousedown ex_md ex_picked) = Some ex_g"
    by (simp add: ex_defs ex_g_def geom_defs onPieceDrag_def mousedown_def piece_color_def Let_def)
  then have m: "mousedown ex_md ex_picked = (Some ex_g, snd (mousedown ex_md ex_picked))"
    by (simp add: prod_eq_iff)
  have t1: "fst (touchstart [ex_touch] ex_picked) = Some ex_tg"
    by (simp add: ex_defs ex_tg_def geom_defs onPieceDrag_def touchstart_def touch_candidate_def
        first_where_def piece_block_def piece_color_def Let_def)
  then have t: "touchstart [ex_touch] ex_picked = (Some ex_tg, snd (touchstart [ex_touch] ex_picked))"
    by (simp add: prod_eq_iff)
  have tsc: "\<forall>m \<in> set ex_tms. snd m \<noteq> []"
    by (simp add: ex_defs)
  have len: "0 < length ex_ms" "1 < length ex_ms" "0 < length ex_tms"
    by (simp_all add: ex_defs)
  have r: "ratioX ex_picked = Finite 2" "ratioY ex_picked = Finite 2"
    "rectLeft (boardEl ex_picked) = 10" "rectTop (boardEl ex_picked) = 20"
    by (simp_all add: ex_defs geom_defs onPieceDrag_def)
  have a0: "mousedrag_stream ex_g ex_ms ! 0 = (Finite 10, Finite 4)"
    using position_updates_are_scaled_deltas [where s = ex_picked and md = ex_md and g = ex_g
        and s' = "snd (mousedown ex_md ex_picked)" and i = 0 and ms = ex_ms] m len
    unfolding r
    by (simp add: scaled_delta_def board_local_def mouse_pos_def ex_ms_def ex_md_def ex_el_def
        num_defs)
  have a: "mousedrag_stream ex_g ex_ms ! 1 = (Finite (- 10), Finite (- 14))"
    using position_updates_are_scaled_deltas [where s = ex_picked and md = ex_md and g = ex_g
        and s' = "snd (mousedown ex_md ex_picked)" and i = 1 and ms = ex_ms] m len
    unfolding r
    by (simp add: scaled_delta_def board_local_def mouse_pos_def ex_ms_def ex_md_def ex_el_def
        num_defs)
  have b: "touchdrag_stream ex_tg ex_tms ! 0 = (Finite 10, Finite 4)"
    using position_updates_are_scaled_deltas [where s = ex_picked and t = ex_touch and ts = "[]"
        and tg = ex_tg and s' = "snd (touchstart [ex_touch] ex_picked)" and i = 0 and tms = ex_tms]
      t tsc len
    unfolding r
    by (simp add: scaled_delta_def board_local_def touch_pos_def ex_tms_def ex_touch_def ex_el_def
        num_defs)
  show ?thesis using m1 t1 a0 a b by blast
qed

text \<open>
  C7. When the colour of the candidate piece is not the side to move, the stream of
  the gesture is empty whatever samples follow, and no piece component changes (the
  candidate does not enter the lifted state). On the mouse path the candidate is the
  piece flagged by \<open>onPieceDrag\<close>; on the touch path it is the piece whose block
  is under the first touch.
\<close>

theorem wrong_turn_gesture_is_empty:
  assumes "piece_color s d \<noteq> turn (engine s)"
  shows "(dragPiece s = Some d \<longrightarrow> mousedrag md ms s = ([], s))
       \<and> (touch_candidate t s = Some d \<longrightarrow>
            fst (touchdrag (t # ts) tms s) = []
          \<and> pieceCmp (snd (touchdrag (t # ts) tms s)) = pieceCmp s
          \<and> highlighted (snd (touchdrag (t # ts) tms s)) = highlighted s)"
  using assms
  by (simp add: mousedrag_def mousedown_def touchdrag_def touchstart_def piece_color_def Let_def)

theorem wrong_turn_gesture_is_empty_witness:
  "piece_color (onPieceDrag 41 ex_board) 41 \<noteq> turn (engine (onPieceDrag 41 ex_board))
   \<and> dragPiece (onPieceDrag 41 ex_board) = Some 41
   \<and> touch_candidate ex_touch_black (onPieceDrag 41 ex_board) = Some 41
   \<and> mousedrag ex_md ex_ms (onPieceDrag 41 ex_board) = ([], onPieceDrag 41 ex_board)
   \<and> fst (touchdrag [ex_touch_black] ex_tms (onPieceDrag 41 ex_board)) = []"
proof -
  let ?s = "onPieceDrag 41 ex_board"
  have c: "piece_color ?s 41 \<noteq> turn (engine ?s)"
    by (simp add: ex_defs onPieceDrag_def piece_color_def)
  have d: "dragPiece ?s = Some 41"
    by (simp add: onPieceDrag_def)
  have t: "touch_candidate ex_touch_black ?s = Some 41"
    by (simp add: ex_defs geom_defs onPieceDrag_def touch_candidate_def first_where_def piece_block_def)
  show ?thesis
    using c d t wrong_turn_gesture_is_empty [OF c, of ex_md ex_ms ex_touch_black "[]" ex_tms]
    by simp
qed

subsection \<open>Evaluation on the small board\<close>

lemmas ex_defs2 = ex_defs ex_dragging_def ex_g_def ex_tg_def ex_drop_black_def
  ex_rejected_def ex_castling_def ex_castled_def ex_unrendered_def ex_rendered_def

lemmas op_defs = onPieceDrag_def mousedown_def touchstart_def touch_candidate_def first_where_def
  piece_block_def piece_color_def block_key_def upd_piece_def set_block_def highlight_def
  markForCheck_def dragStart_def dragEnd_def reset_def
  pointer_up_def dropPiece_def dropPoint_def dropBlockOf_def at_index_def endDragAndDrop_def

lemma ex_dragging_eval:
  "dragPiece ex_dragging = Some 40" "highlighted ex_dragging = [22]"
  "isDragged (pieceCmp ex_dragging 40)" "\<not> isDisabled ex_dragging"
  by (simp_all add: ex_dragging_def ex_defs geom_defs onPieceDrag_def mousedown_def piece_color_def
      Let_def upd_piece_def highlight_def markForCheck_def dragStart_def)


subsection \<open>Finding the first match\<close>

lemma first_where_Nil: "first_where f [] = None"
  by (simp add: first_where_def)

lemma first_where_Cons: "first_where f (x # xs) = (if f x then Some x else first_where f xs)"
  by (simp add: first_where_def)

lemma first_where_None: "first_where f xs = None \<longleftrightarrow> (\<forall>x \<in> set xs. \<not> f x)"
  by (induction xs) (auto simp: first_where_Nil first_where_Cons)

lemma first_where_Some: "first_where f xs = Some x \<Longrightarrow> x \<in> set xs \<and> f x"
  by (induction xs) (auto simp: first_where_Nil first_where_Cons split: if_splits)

lemma first_where_unique:
  assumes "inj_on k (set xs)" "x \<in> set xs"
  shows "first_where (\<lambda>y. k x = k y) xs = Some x"
proof -
  obtain y where y: "first_where (\<lambda>y. k x = k y) xs = Some y"
    using assms(2) first_where_None [of "\<lambda>y. k x = k y" xs] by (cases "first_where (\<lambda>y. k x = k y) xs") auto
  then have "y \<in> set xs" "k x = k y" using first_where_Some by fastforce+
  with assms have "y = x" by (auto dest: inj_onD)
  with y show ?thesis by simp
qed

subsection \<open>The reconciler\<close>

lemma sync_loop_eq:
  "sync_loop b cs s =
     (case matched s cs b of
        None \<Rightarrow> (False, s)
      | Some c \<Rightarrow> (True, upd_piece c (reset 150) (set_block c b s)))"
  by (induction cs) (simp_all add: matched_def block_key_def first_where_Nil first_where_Cons)

lemma sync_block_eq:
  "sync_block cs s b =
     (case matched s cs b of
        None \<Rightarrow> s\<lparr>blockCmp := (blockCmp s)(b := (blockCmp s b)\<lparr>bc_piece := None\<rparr>)\<rparr>
      | Some c \<Rightarrow> upd_piece c (reset 150) (set_block c b s))"
  by (simp add: sync_block_def sync_loop_eq split: option.splits)

lemma sync_block_keys:
  "piece_block (sync_block cs s b) = piece_block s"
  "block_key (sync_block cs s b) = block_key s"
  by (auto simp: sync_block_eq piece_block_def block_key_def upd_piece_def set_block_def reset_def
      fun_eq_iff split: option.splits)

lemma sync_block_matched: "matched (sync_block cs s b) cs' b' = matched s cs' b'"
  by (simp add: matched_def sync_block_keys)

lemma sync_block_frame:
  "pieces (sync_block cs s b) = pieces s"
  "blocks (sync_block cs s b) = blocks s"
  "engine (sync_block cs s b) = engine s"
  "dragPiece (sync_block cs s b) = dragPiece s"
  "highlighted (sync_block cs s b) = highlighted s"
  by (auto simp: sync_block_eq upd_piece_def set_block_def split: option.splits)

lemma sync_block_bc_piece:
  "bc_piece (blockCmp (sync_block cs s b) b') =
     (if b' = b then matched s cs b else bc_piece (blockCmp s b'))"
  by (auto simp: sync_block_eq upd_piece_def set_block_def split: option.splits)

lemma sync_block_pc_block:
  "pc_block (pieceCmp (sync_block cs s b) c) =
     (if matched s cs b = Some c then Some b else pc_block (pieceCmp s c))"
  by (auto simp: sync_block_eq upd_piece_def set_block_def reset_def split: option.splits)

lemma sync_fold_keys:
  "piece_block (foldl (sync_block cs) s bs) = piece_block s"
  "block_key (foldl (sync_block cs) s bs) = block_key s"
  by (induction bs arbitrary: s) (simp_all add: sync_block_keys)

lemma sync_fold_frame:
  "pieces (foldl (sync_block cs) s bs) = pieces s"
  "blocks (foldl (sync_block cs) s bs) = blocks s"
  "engine (foldl (sync_block cs) s bs) = engine s"
  "dragPiece (foldl (sync_block cs) s bs) = dragPiece s"
  "highlighted (foldl (sync_block cs) s bs) = highlighted s"
  by (induction bs arbitrary: s) (simp_all add: sync_block_frame)

lemma sync_fold_matched: "matched (foldl (sync_block cs) s bs) cs' b = matched s cs' b"
  by (simp add: matched_def sync_fold_keys)

lemma sync_fold_bc_piece:
  "b \<in> set bs \<Longrightarrow> bc_piece (blockCmp (foldl (sync_block cs) s bs) b) = matched s cs b"
proof (induction bs arbitrary: b rule: rev_induct)
  case Nil
  then show ?case by simp
next
  case (snoc b0 bs)
  show ?case
  proof (cases "b = b0")
    case True
    then show ?thesis by (simp add: sync_block_bc_piece sync_fold_matched)
  next
    case False
    with snoc show ?thesis by (simp add: sync_block_bc_piece)
  qed
qed

lemma sync_fold_pc_block:
  assumes "inj_on (piece_block s) (set cs)" "inj_on (block_key s) (set bs)"
      and "c \<in> set cs" "b \<in> set bs" "block_key s b = piece_block s c"
  shows "pc_block (pieceCmp (foldl (sync_block cs) s bs) c) = Some b"
  using assms(2,4,5)
proof (induction bs rule: rev_induct)
  case Nil
  then show ?case by simp
next
  case (snoc b0 bs)
  have m: "\<And>b'. block_key s b' = piece_block s c \<Longrightarrow> matched s cs b' = Some c"
    using first_where_unique [OF assms(1,3)] by (simp add: matched_def)
  show ?case
  proof (cases "b = b0")
    case True
    then show ?thesis
      using m [OF snoc.prems(3)] by (simp add: sync_block_pc_block sync_fold_matched)
  next
    case False
    with snoc.prems have b: "b \<in> set bs" by simp
    have inj: "inj_on (block_key s) (set bs)"
      using snoc.prems(1) by (auto intro: inj_on_subset)
    have ih: "pc_block (pieceCmp (foldl (sync_block cs) s bs) c) = Some b"
      using snoc.IH [OF inj b snoc.prems(3)] .
    have "matched s cs b0 \<noteq> Some c"
    proof
      assume "matched s cs b0 = Some c"
      then have "first_where (\<lambda>c'. block_key s b0 = piece_block s c') cs = Some c"
        by (simp add: matched_def)
      from first_where_Some [OF this] have "block_key s b0 = piece_block s c"
        by simp
      with snoc.prems(3) have "block_key s b0 = block_key s b" by simp
      with snoc.prems(1) b have "b0 = b" by (auto dest: inj_onD)
      with False show False by simp
    qed
    then show ?thesis
      using ih by (simp add: sync_block_pc_block sync_fold_matched)
  qed
qed

lemma syncPiecesToBlocks_frame:
  "pieces (syncPiecesToBlocks s) = pieces s"
  "blocks (syncPiecesToBlocks s) = blocks s"
  "engine (syncPiecesToBlocks s) = engine s"
  "dragPiece (syncPiecesToBlocks s) = dragPiece s"
  "highlighted (syncPiecesToBlocks s) = highlighted s"
  "piece_block (syncPiecesToBlocks s) = piece_block s"
  "block_key (syncPiecesToBlocks s) = block_key s"
  by (simp_all add: syncPiecesToBlocks_def sync_fold_frame sync_fold_keys)

lemma syncPiecesToBlocks_paired:
  assumes "distinct_squares s"
  shows "pieces_paired (syncPiecesToBlocks s)"
  unfolding pieces_paired_def syncPiecesToBlocks_frame
proof (intro ballI impI conjI)
  fix c b
  assume c: "c \<in> set (pieces s)" and b: "b \<in> set (blocks s)"
    and k: "block_key s b = piece_block s c"
  from assms have i1: "inj_on (piece_block s) (set (pieces s))"
    and i2: "inj_on (block_key s) (set (blocks s))"
    by (simp_all add: distinct_squares_def)
  show "pc_block (pieceCmp (syncPiecesToBlocks s) c) = Some b"
    unfolding syncPiecesToBlocks_def by (rule sync_fold_pc_block [OF i1 i2 c b k])
  have "matched s (pieces s) b = Some c"
    using first_where_unique [OF i1 c] k by (simp add: matched_def)
  then show "bc_piece (blockCmp (syncPiecesToBlocks s) b) = Some c"
    unfolding syncPiecesToBlocks_def using b by (simp add: sync_fold_bc_piece)
qed

lemma syncPiecesToBlocks_cleared: "empty_blocks_cleared (syncPiecesToBlocks s)"
  unfolding empty_blocks_cleared_def syncPiecesToBlocks_frame
proof (intro ballI impI)
  fix b
  assume b: "b \<in> set (blocks s)"
    and none: "\<forall>c \<in> set (pieces s). piece_block s c \<noteq> block_key s b"
  then have "matched s (pieces s) b = None"
    by (auto simp: matched_def first_where_None)
  then show "bc_piece (blockCmp (syncPiecesToBlocks s) b) = None"
    unfolding syncPiecesToBlocks_def using b by (simp add: sync_fold_bc_piece)
qed

lemma endDragAndDrop_pairing:
  assumes "dragPiece s = Some d"
  shows "endDragAndDrop s = Inr ((upd_piece d dragEnd s)\<lparr>dragPiece := None, highlighted := []\<rparr>)"
    and "pieces_paired s \<Longrightarrow> pieces_paired ((upd_piece d dragEnd s)\<lparr>dragPiece := None, highlighted := []\<rparr>)"
    and "empty_blocks_cleared s \<Longrightarrow>
         empty_blocks_cleared ((upd_piece d dragEnd s)\<lparr>dragPiece := None, highlighted := []\<rparr>)"
  using assms
  by (auto simp: endDragAndDrop_def pieces_paired_def empty_blocks_cleared_def upd_piece_def
      dragEnd_def piece_block_def block_key_def)

lemma ex_castled_squares: "distinct_squares ex_castled"
  by (simp add: distinct_squares_def ex_defs2 geom_defs op_defs Let_def)

lemma ex_castled_sweep:
  "pc_block (pieceCmp (syncPiecesToBlocks ex_castled) 40) = Some 12"
  "pc_block (pieceCmp (syncPiecesToBlocks ex_castled) 42) = Some 10"
  "bc_piece (blockCmp (syncPiecesToBlocks ex_castled) 11) = None"
  by (simp_all add: syncPiecesToBlocks_def sync_block_def ex_defs2 geom_defs op_defs Let_def)

text \<open>
  C5. When the authority answers with a valid castling move, the callback runs the
  full sweep \<open>syncPiecesToBlocks\<close> and then finalises the drag. In a position
  where rendered pieces stand on distinct logical blocks and block components show
  distinct logical blocks, afterwards every piece component is paired with the block
  component that shows the logical block of its piece (compared by reference, not by
  index), and every block component on whose logical block no rendered piece stands
  has its piece reference cleared.
\<close>

theorem castling_runs_full_sweep:
  assumes drag: "dragPiece s = Some d"
      and valid: "\<not> invalid m" and castling: "isCastlingMove m"
      and squares: "distinct_squares s"
  shows "\<exists>s'. dropPiece_then m s = Inr s'
           \<and> s' = (upd_piece d dragEnd (syncPiecesToBlocks s))\<lparr>dragPiece := None, highlighted := []\<rparr>
           \<and> pieces_paired s'
           \<and> empty_blocks_cleared s'"
proof -
  let ?r = "syncPiecesToBlocks s"
  have d: "dragPiece ?r = Some d"
    using drag by (simp add: syncPiecesToBlocks_frame)
  have "dropPiece_then m s = endDragAndDrop ?r"
    using valid castling by (simp add: dropPiece_then_def)
  then show ?thesis
    using endDragAndDrop_pairing [OF d] syncPiecesToBlocks_paired [OF squares]
      syncPiecesToBlocks_cleared [of s]
    by simp
qed

theorem castling_runs_full_sweep_witness:
  "dragPiece ex_castled = Some 40
   \<and> \<not> invalid ex_castling \<and> isCastlingMove ex_castling
   \<and> distinct_squares ex_castled
   \<and> (\<exists>s'. dropPiece_then ex_castling ex_castled = Inr s'
           \<and> s' = (upd_piece 40 dragEnd (syncPiecesToBlocks ex_castled))\<lparr>dragPiece := None, highlighted := []\<rparr>
           \<and> pieces_paired s'
           \<and> empty_blocks_cleared s')"
proof -
  have a: "dragPiece ex_castled = Some 40"
    using ex_dragging_eval(1) by (simp add: ex_castled_def)
  have b: "\<not> invalid ex_castling" "isCastlingMove ex_castling"
    by (simp_all add: ex_castling_def)
  show ?thesis
    using a b ex_castled_squares castling_runs_full_sweep [OF a b ex_castled_squares] by blast
qed

subsection \<open>Dropping\<close>









subsection \<open>A legal drop\<close>







subsection \<open>Starting a drag while another is active\<close>

text \<open>
  C3, as the claim states it, fails on the small board: while the component 40 is
  under drag with the destination set \<open>[22]\<close>, a touch on the block of the
  component 42 makes 42 the dragged piece and replaces the destination set, and both
  components are in the lifted state.
\<close>

theorem touchstart_replaces_active_session:
  "dragPiece ex_dragging = Some 40
   \<and> highlighted ex_dragging = [22]
   \<and> isDragged (pieceCmp ex_dragging 40)
   \<and> dragPiece (snd (touchstart [ex_touch] ex_dragging)) = Some 42
   \<and> highlighted (snd (touchstart [ex_touch] ex_dragging)) = [22, 23]
   \<and> isDragged (pieceCmp (snd (touchstart [ex_touch] ex_dragging)) 40)
   \<and> isDragged (pieceCmp (snd (touchstart [ex_touch] ex_dragging)) 42)"
  by (simp add: ex_dragging_def ex_defs geom_defs onPieceDrag_def mousedown_def piece_color_def
      Let_def upd_piece_def highlight_def markForCheck_def dragStart_def
      touchstart_def touch_candidate_def first_where_def piece_block_def)

text \<open>
  C3, amended. The component has one drag reference. A start event, mouse or touch,
  that arrives while interaction is blocked changes nothing. Otherwise a start is not
  refused because a drag is active: the handler of the mouse path leaves the drag
  reference as it finds it (\<open>onPieceDrag\<close> has replaced it unconditionally), and
  the handler of the touch path replaces it by the piece under the first touch, or
  clears it when there is none.
\<close>

theorem drag_start_while_blocked_is_noop:
  "(isDisabled s \<longrightarrow> mousedown md s = (None, s) \<and> touchstart ts s = (None, s))
   \<and> dragPiece (snd (mousedown md s)) = dragPiece s
   \<and> (\<not> isDisabled s \<longrightarrow> dragPiece (snd (touchstart (t # ts) s)) = touch_candidate t s)
   \<and> dragPiece (onPieceDrag c s) = Some c"
  by (auto simp: mousedown_def touchstart_def Let_def upd_piece_def highlight_def markForCheck_def
      onPieceDrag_def split: option.splits)

theorem drag_start_while_blocked_is_noop_witness:
  "isDisabled (blockUi True ex_dragging)
   \<and> mousedown ex_md (blockUi True ex_dragging) = (None, blockUi True ex_dragging)
   \<and> touchstart [ex_touch] (blockUi True ex_dragging) = (None, blockUi True ex_dragging)
   \<and> \<not> isDisabled ex_dragging
   \<and> dragPiece (snd (touchstart [ex_touch] ex_dragging)) = touch_candidate ex_touch ex_dragging"
proof -
  have a: "isDisabled (blockUi True ex_dragging)"
    by (simp add: blockUi_def markForCheck_def)
  have b: "\<not> isDisabled ex_dragging"
    by (simp add: ex_dragging_eval)
  show ?thesis
    using a b drag_start_while_blocked_is_noop [of "blockUi True ex_dragging" ex_md "[ex_touch]"]
      drag_start_while_blocked_is_noop [of ex_dragging ex_md "[]" ex_touch]
    by simp
qed

subsection \<open>The deferred UI move\<close>

text \<open>
  C9. For a piece of the engine's collection that has no component in the rendered
  collection, \<open>move\<close> answers without error and only hands itself to
  \<^verbatim>\<open>setTimeout\<close>. When the deferred call runs, in whatever state a later render
  pass has left: if a component for the piece exists now (and a block component at
  the index of its block), the two are paired and a settle transition is asked for;
  if the component is still missing, the call is deferred again.
\<close>

theorem move_defers_until_rendered:
  assumes missing: "first_where (\<lambda>c. piece (pieceCmp s c) = p) (pieces s) = None"
      and known: "p \<in> set (engine_pieces (engine s))"
  shows "move p s = Inr (s\<lparr>timers := timers s @ [p]\<rparr>)
       \<and> (timers r = p # ps
            \<and> first_where (\<lambda>c. piece (pieceCmp r c) = p) (pieces r) = Some c
            \<and> at_index (blocks r) (index (blockObj (engine r) (block (pieceObj (engine r) p)))) = Some b \<longrightarrow>
            (\<exists>r'. runTimer r = Inr r' \<and> pc_block (pieceCmp r' c) = Some b
                 \<and> bc_piece (blockCmp r' b) = Some c \<and> settle (pieceCmp r' c) = Some 150
                 \<and> timers r' = ps))
       \<and> (timers r = p # ps
            \<and> first_where (\<lambda>c. piece (pieceCmp r c) = p) (pieces r) = None
            \<and> p \<in> set (engine_pieces (engine r)) \<longrightarrow>
            runTimer r = Inr (r\<lparr>timers := ps @ [p]\<rparr>))"
  using assms
  by (auto simp: move_def runTimer_def upd_piece_def set_block_def reset_def)

theorem move_defers_until_rendered_witness:
  "first_where (\<lambda>c. piece (pieceCmp ex_unrendered c) = 33) (pieces ex_unrendered) = None
   \<and> 33 \<in> set (engine_pieces (engine ex_unrendered))
   \<and> move 33 ex_unrendered = Inr (ex_unrendered\<lparr>timers := [33]\<rparr>)
   \<and> runTimer (ex_unrendered\<lparr>timers := [33]\<rparr>) = Inr (ex_unrendered\<lparr>timers := [33]\<rparr>)
   \<and> (\<exists>r'. runTimer ex_rendered = Inr r' \<and> pc_block (pieceCmp r' 43) = Some 12
           \<and> bc_piece (blockCmp r' 12) = Some 43 \<and> settle (pieceCmp r' 43) = Some 150
           \<and> timers r' = [])"
proof -
  have a: "first_where (\<lambda>c. piece (pieceCmp ex_unrendered c) = 33) (pieces ex_unrendered) = None"
    by (simp add: ex_defs2 first_where_def)
  have b: "33 \<in> set (engine_pieces (engine ex_unrendered))"
    by (simp add: ex_defs2)
  have t: "timers ex_unrendered = []"
    by (simp add: ex_defs2)
  have r1: "timers ex_rendered = [33]"
    "first_where (\<lambda>c. piece (pieceCmp ex_rendered c) = 33) (pieces ex_rendered) = Some 43"
    "at_index (blocks ex_rendered)
       (index (blockObj (engine ex_rendered) (block (pieceObj (engine ex_rendered) 33)))) = Some 12"
    by (simp_all add: ex_defs2 first_where_def at_index_def)
  have r2: "timers (ex_unrendered\<lparr>timers := [33]\<rparr>) = [33]"
    "first_where (\<lambda>c. piece (pieceCmp (ex_unrendered\<lparr>timers := [33]\<rparr>) c) = 33)
       (pieces (ex_unrendered\<lparr>timers := [33]\<rparr>)) = None"
    "33 \<in> set (engine_pieces (engine (ex_unrendered\<lparr>timers := [33]\<rparr>)))"
    using a b by simp_all
  show ?thesis
    using a b t r1 r2
      move_defers_until_rendered [OF a b, of ex_rendered "[]" 43 12]
      move_defers_until_rendered [OF a b, of "ex_unrendered\<lparr>timers := [33]\<rparr>" "[]"]
    by simp
qed

end
